theory Spec2Isabelle
  imports Complex_Main "HOL-Library.Word"
begin

section \<open>ElidingLabel: a label that elides its text and highlights a filter\<close>

text \<open>
  A shallow embedding of \<^verbatim>\<open>AzQtComponents/Components/Widgets/ElidingLabel.cpp\<close>.
  The widget is a record of its members and of the parts of the base \<^verbatim>\<open>QLabel\<close> the
  code reads and writes; every member function is a function from the widget to the
  updated widget. The services of the toolkit (font metrics, rich-text documents,
  regular expressions) are not code of the widget: they are the fields of a record
  that every operation takes as its first argument.
\<close>

subsection \<open>Toolkit value types\<close>

text \<open>\<^verbatim>\<open>Qt::TextElideMode\<close>, in the order of the toolkit's enum.\<close>

datatype TextElideMode = ElideLeft | ElideRight | ElideMiddle | ElideNone

datatype CaseSensitivity = CaseInsensitive | CaseSensitive

text \<open>\<^verbatim>\<open>QRegExp(pattern, cs)\<close>: the pattern and its case sensitivity.\<close>

record QRegExp =
  pattern :: string
  caseSensitivity :: CaseSensitivity

text \<open>
  \<^verbatim>\<open>QRect\<close> stores its two corners; the right and bottom edges are the last column
  and row inside the rectangle, so \<open>width = x2 - x1 + 1\<close>. Pixel coordinates are
  C++ \<^verbatim>\<open>int\<close>s that stay far inside the 32-bit range (a widget is at most
  16777215 pixels wide), so they are modelled as \<open>int\<close>.
\<close>

record QRect =
  x1 :: int
  y1 :: int
  x2 :: int
  y2 :: int

definition rect_left :: "QRect \<Rightarrow> int" where
  "rect_left r = x1 r"

definition rect_top :: "QRect \<Rightarrow> int" where
  "rect_top r = y1 r"

definition rect_right :: "QRect \<Rightarrow> int" where
  "rect_right r = x2 r"

definition rect_width :: "QRect \<Rightarrow> int" where
  "rect_width r = x2 r - x1 r + 1"

definition rect_height :: "QRect \<Rightarrow> int" where
  "rect_height r = y2 r - y1 r + 1"

text \<open>The constructor \<^verbatim>\<open>QRect(x, y, w, h)\<close>.\<close>

definition mkRect :: "int \<Rightarrow> int \<Rightarrow> int \<Rightarrow> int \<Rightarrow> QRect" where
  "mkRect x y w h = \<lparr>x1 = x, y1 = y, x2 = x + w - 1, y2 = y + h - 1\<rparr>"

text \<open>\<^verbatim>\<open>QRect::adjust(dx1, dy1, dx2, dy2)\<close> adds the offsets to the corners.\<close>

definition adjust :: "QRect \<Rightarrow> int \<Rightarrow> int \<Rightarrow> int \<Rightarrow> int \<Rightarrow> QRect" where
  "adjust r dx1 dy1 dx2 dy2 =
     \<lparr>x1 = x1 r + dx1, y1 = y1 r + dy1, x2 = x2 r + dx2, y2 = y2 r + dy2\<rparr>"

text \<open>
  \<^verbatim>\<open>QSize\<close>. \<^verbatim>\<open>minimumSizeHint\<close> bounds a size by
  \<^verbatim>\<open>std::numeric_limits<int>::max()\<close>, so here the two \<^verbatim>\<open>int\<close>s are 32-bit words
  read as two's complement.
\<close>

record QSize =
  wd :: "32 word"
  ht :: "32 word"

definition INT_MAX :: "32 word" where
  "INT_MAX = 2147483647"

text \<open>\<^verbatim>\<open>qMin(a, b)\<close> is \<^verbatim>\<open>(a < b) ? a : b\<close> on signed ints.\<close>

definition qMin :: "32 word \<Rightarrow> 32 word \<Rightarrow> 32 word" where
  "qMin a b = (if sint a < sint b then a else b)"

text \<open>\<^verbatim>\<open>QSize::boundedTo\<close>: the component-wise minimum.\<close>

definition boundedTo :: "QSize \<Rightarrow> QSize \<Rightarrow> QSize" where
  "boundedTo s other = \<lparr>wd = qMin (wd s) (wd other), ht = qMin (ht s) (ht other)\<rparr>"

type_synonym QColor = string

subsection \<open>Rich-text documents and cursors\<close>

text \<open>
  A \<^verbatim>\<open>QTextDocument\<close> is a sequence of characters, each with a character format
  \<open>'f\<close>; a position is an index between two characters, \<open>0\<close> the start and the
  length the end. A \<^verbatim>\<open>QTextCursor\<close> without selection is a document and a position.
\<close>

type_synonym 'f QTextDocument = "(char \<times> 'f) list"

type_synonym 'f QTextCursor = "'f QTextDocument \<times> nat"

definition toPlainText :: "'f QTextDocument \<Rightarrow> string" where
  "toPlainText d = map fst d"

text \<open>\<^verbatim>\<open>textCursor.movePosition(QTextCursor::End)\<close> on a cursor of document \<open>d\<close>.\<close>

definition cursorAtEnd :: "'f QTextDocument \<Rightarrow> 'f QTextCursor" where
  "cursorAtEnd d = (d, length d)"

definition atStart :: "'f QTextCursor \<Rightarrow> bool" where
  "atStart cur = (snd cur = 0)"

text \<open>
  \<^verbatim>\<open>deletePreviousChar\<close> removes the character before the cursor, which moves back
  by one; at the start of the document there is nothing to delete.
\<close>

definition deletePreviousChar :: "'f QTextCursor \<Rightarrow> 'f QTextCursor" where
  "deletePreviousChar cur =
     (case cur of (d, p) \<Rightarrow>
        if p = 0 then (d, p) else (take (p - 1) d @ drop p d, p - 1))"

subsection \<open>The services of the toolkit\<close>

text \<open>
  What the widget asks of the toolkit, for the widget's font:
  \<^item> \<open>mightBeRichText\<close>: \<^verbatim>\<open>Qt::mightBeRichText\<close>;
  \<^item> \<open>horizontalAdvance\<close> and \<open>elidedText\<close>: the two calls on \<^verbatim>\<open>fontMetrics()\<close>;
  \<^item> \<open>setHtml\<close>, \<open>toHtml\<close>: parsing markup into a document and serialising it;
  \<^item> \<open>docWidth\<close>: \<^verbatim>\<open>doc.size().width()\<close> after \<^verbatim>\<open>adjustSize()\<close>, with the
    widget's font, a zero document margin and wrapping off (a \<^verbatim>\<open>qreal\<close>);
  \<^item> \<open>charFormat\<close>: the format the cursor gives to inserted text at a position;
  \<^item> \<open>rxMatchAt\<close>: whether a regular expression matches a string at an index;
  \<^item> \<open>defaultMinimumSizeHint\<close>: \<^verbatim>\<open>QWidget::minimumSizeHint()\<close>;
  \<^item> \<open>backgroundColor\<close>: the highlight colour, a constant of the widget's header.
\<close>

record 'f toolkit =
  mightBeRichText :: "string \<Rightarrow> bool"
  horizontalAdvance :: "string \<Rightarrow> int"
  elidedText :: "string \<Rightarrow> TextElideMode \<Rightarrow> int \<Rightarrow> string"
  setHtml :: "string \<Rightarrow> 'f QTextDocument"
  toHtml :: "'f QTextDocument \<Rightarrow> string"
  docWidth :: "'f QTextDocument \<Rightarrow> real"
  charFormat :: "'f QTextDocument \<Rightarrow> nat \<Rightarrow> 'f"
  rxMatchAt :: "QRegExp \<Rightarrow> string \<Rightarrow> nat \<Rightarrow> bool"
  defaultMinimumSizeHint :: QSize
  backgroundColor :: QColor

text \<open>\<^verbatim>\<open>textCursor.insertText(s)\<close>: the text goes in at the cursor, which moves behind it.\<close>

definition insertText :: "'f toolkit \<Rightarrow> 'f QTextCursor \<Rightarrow> string \<Rightarrow> 'f QTextCursor" where
  "insertText tk cur s =
     (case cur of (d, p) \<Rightarrow>
        (take p d @ map (\<lambda>c. (c, charFormat tk d p)) s @ drop p d, p + length s))"

subsection \<open>The widget\<close>

text \<open>
  What reaches the outside: the signal \<^verbatim>\<open>elisionRequired\<close> and the two requests to
  the toolkit, \<^verbatim>\<open>updateGeometry()\<close> and \<^verbatim>\<open>update()\<close>. They are appended to a log in
  the order the code issues them.
\<close>

datatype notification = ElisionRequired bool | UpdateGeometry | Update

text \<open>
  The members of \<^verbatim>\<open>ElidingLabel\<close> keep their names. \<open>metricsLabel_text\<close> is the text
  of the hidden \<^verbatim>\<open>m_metricsLabel\<close>; \<open>label_text\<close> and \<open>toolTip\<close> are the text and the
  tooltip of the base \<^verbatim>\<open>QLabel\<close>; \<open>contentsRect\<close>, \<open>indent\<close> and \<open>frameWidth\<close> are the
  geometry that \<^verbatim>\<open>TextRect()\<close> reads.
\<close>

record ElidingLabel =
  m_text :: string
  m_elidedText :: string
  m_description :: string
  m_elideMode :: TextElideMode
  m_filterString :: string
  m_filterRegex :: QRegExp
  metricsLabel_text :: string
  label_text :: string
  toolTip :: string
  contentsRect :: QRect
  indent :: int
  frameWidth :: int
  notifications :: "notification list"

definition ellipsis :: string where
  "ellipsis = ''...''"

text \<open>C++ division of \<^verbatim>\<open>int\<close>s truncates towards zero.\<close>

definition cdiv :: "int \<Rightarrow> int \<Rightarrow> int" where
  "cdiv a b = sgn a * sgn b * (\<bar>a\<bar> div \<bar>b\<bar>)"

definition TextRect :: "'f toolkit \<Rightarrow> ElidingLabel \<Rightarrow> QRect" where
  "TextRect tk s =
     (let textRect = contentsRect s in
      if indent s = - 1 then
        if frameWidth s \<noteq> 0 then
          let textMargin = cdiv (horizontalAdvance tk ''x'') 2
          in adjust textRect textMargin 0 (- textMargin) 0
        else textRect
      else textRect)"

text \<open>
  The loop of \<^verbatim>\<open>elide()\<close>:
  \<^verbatim>\<open>while (doc.size().width() + ellipsisWidth > maxLineWidth && !textCursor.atStart())\<close>
  deletes the character before the cursor. The comparison is in \<^verbatim>\<open>qreal\<close>.
\<close>

function deleteLoop :: "'f toolkit \<Rightarrow> int \<Rightarrow> int \<Rightarrow> 'f QTextCursor \<Rightarrow> 'f QTextCursor" where
  "deleteLoop tk ellipsisWidth maxLineWidth textCursor =
     (if docWidth tk (fst textCursor) + real_of_int ellipsisWidth > real_of_int maxLineWidth
         \<and> \<not> atStart textCursor
      then deleteLoop tk ellipsisWidth maxLineWidth (deletePreviousChar textCursor)
      else textCursor)"
  by pat_completeness auto
termination
  by (relation "measure (\<lambda>(tk, ew, mw, cur). snd cur)")
     (auto simp: atStart_def deletePreviousChar_def split: prod.splits)

text \<open>The number of times the body of that loop runs.\<close>

function deleteLoop_iterations :: "'f toolkit \<Rightarrow> int \<Rightarrow> int \<Rightarrow> 'f QTextCursor \<Rightarrow> nat" where
  "deleteLoop_iterations tk ellipsisWidth maxLineWidth textCursor =
     (if docWidth tk (fst textCursor) + real_of_int ellipsisWidth > real_of_int maxLineWidth
         \<and> \<not> atStart textCursor
      then Suc (deleteLoop_iterations tk ellipsisWidth maxLineWidth (deletePreviousChar textCursor))
      else 0)"
  by pat_completeness auto
termination
  by (relation "measure (\<lambda>(tk, ew, mw, cur). snd cur)")
     (auto simp: atStart_def deletePreviousChar_def split: prod.splits)

text \<open>
  Both are unfolded one iteration at a time, never by the simplifier on its own.
\<close>

declare deleteLoop.simps [simp del]

declare deleteLoop_iterations.simps [simp del]

text \<open>
  The overflow branch of \<^verbatim>\<open>elide()\<close>, from the construction of the cursor to the
  document that is serialised: the ellipsis width is reserved for \<open>ElideRight\<close>
  only, the loop runs, and the ellipsis is inserted for \<open>ElideRight\<close> only.
\<close>

definition truncateDocument ::
    "'f toolkit \<Rightarrow> TextElideMode \<Rightarrow> int \<Rightarrow> 'f QTextDocument \<Rightarrow> 'f QTextDocument" where
  "truncateDocument tk mode maxLineWidth doc =
     (let textCursor = cursorAtEnd doc;
          ellipsisWidth = (if mode = ElideRight then horizontalAdvance tk ellipsis else 0);
          textCursor = deleteLoop tk ellipsisWidth maxLineWidth textCursor;
          textCursor = (if mode = ElideRight then insertText tk textCursor ellipsis
                        else textCursor)
      in fst textCursor)"

text \<open>
  The rich-text branch of \<^verbatim>\<open>elide()\<close>, from \<^verbatim>\<open>doc.setHtml(m_text)\<close> to the value
  assigned to \<^verbatim>\<open>m_elidedText\<close>. The document is \<^verbatim>\<open>static\<close> in the source, but
  \<^verbatim>\<open>setHtml\<close> replaces its content on every call.
\<close>

definition elideRichText :: "'f toolkit \<Rightarrow> ElidingLabel \<Rightarrow> string" where
  "elideRichText tk s =
     (let maxLineWidth = rect_width (TextRect tk s);
          doc = setHtml tk (m_text s)
      in if docWidth tk doc \<le> real_of_int maxLineWidth then m_text s
         else toHtml tk (truncateDocument tk (m_elideMode s) maxLineWidth doc))"

text \<open>The value \<^verbatim>\<open>elide()\<close> assigns to \<^verbatim>\<open>m_elidedText\<close>, in both branches.\<close>

definition elidedString :: "'f toolkit \<Rightarrow> ElidingLabel \<Rightarrow> string" where
  "elidedString tk s =
     (if mightBeRichText tk (m_text s) then elideRichText tk s
      else elidedText tk (m_text s) (m_elideMode s) (rect_width (TextRect tk s)))"

text \<open>
  \<^verbatim>\<open>elide()\<close>: the elided text is stored, handed to \<^verbatim>\<open>QLabel::setText\<close>, and the
  tooltip follows. \<^verbatim>\<open>QStringLiteral("%1\n%2").arg(m_text, m_description)\<close> is the two
  strings with a line feed between them. \<^verbatim>\<open>ensurePolished()\<close> only finalises the
  style, which the toolkit record already stands for.
\<close>

definition elide :: "'f toolkit \<Rightarrow> ElidingLabel \<Rightarrow> ElidingLabel" where
  "elide tk s =
     (let s1 = s\<lparr>m_elidedText := elidedString tk s\<rparr>;
          s2 = s1\<lparr>label_text := m_elidedText s1\<rparr>
      in if m_elidedText s2 \<noteq> m_text s2 then
           if m_description s2 = [] then s2\<lparr>toolTip := m_text s2\<rparr>
           else s2\<lparr>toolTip := m_text s2 @ [CHR 0x0A] @ m_description s2\<rparr>
         else s2\<lparr>toolTip := m_description s2\<rparr>)"

definition handleElision :: "'f toolkit \<Rightarrow> bool \<Rightarrow> ElidingLabel \<Rightarrow> ElidingLabel" where
  "handleElision tk geometryUpdateRequired s =
     (let s1 = elide tk (s\<lparr>m_elidedText := []\<rparr>)
      in if geometryUpdateRequired
         then s1\<lparr>notifications := notifications s1 @ [UpdateGeometry]\<rparr>
         else s1)"

text \<open>
  \<^verbatim>\<open>emit elisionRequired(b)\<close>: the constructor connects the signal to
  \<^verbatim>\<open>handleElision\<close> of the same object, so the slot runs inside the \<^verbatim>\<open>emit\<close>.
\<close>

definition emit_elisionRequired :: "'f toolkit \<Rightarrow> bool \<Rightarrow> ElidingLabel \<Rightarrow> ElidingLabel" where
  "emit_elisionRequired tk b s =
     handleElision tk b (s\<lparr>notifications := notifications s @ [ElisionRequired b]\<rparr>)"

definition setText :: "'f toolkit \<Rightarrow> string \<Rightarrow> ElidingLabel \<Rightarrow> ElidingLabel" where
  "setText tk text s =
     (if text = m_text s then s
      else emit_elisionRequired tk True (s\<lparr>m_text := text, metricsLabel_text := text\<rparr>))"

definition setDescription :: "string \<Rightarrow> ElidingLabel \<Rightarrow> ElidingLabel" where
  "setDescription description s = s\<lparr>m_description := description\<rparr>"

definition setElideMode :: "TextElideMode \<Rightarrow> ElidingLabel \<Rightarrow> ElidingLabel" where
  "setElideMode mode s =
     (if m_elideMode s = mode then s
      else s\<lparr>m_elideMode := mode, notifications := notifications s @ [Update]\<rparr>)"

text \<open>
  \<^verbatim>\<open>resizeEvent\<close> runs when the toolkit has given the widget its new geometry;
  \<^verbatim>\<open>QWidget::resizeEvent\<close> itself does nothing. \<open>resize\<close> is the two together.
\<close>

definition resizeEvent :: "'f toolkit \<Rightarrow> ElidingLabel \<Rightarrow> ElidingLabel" where
  "resizeEvent tk s = emit_elisionRequired tk False s"

definition resize :: "'f toolkit \<Rightarrow> QRect \<Rightarrow> ElidingLabel \<Rightarrow> ElidingLabel" where
  "resize tk r s = resizeEvent tk (s\<lparr>contentsRect := r\<rparr>)"

definition minimumSizeHint :: "'f toolkit \<Rightarrow> QSize" where
  "minimumSizeHint tk = boundedTo (defaultMinimumSizeHint tk) \<lparr>wd = 0, ht = INT_MAX\<rparr>"

definition setFilter :: "string \<Rightarrow> ElidingLabel \<Rightarrow> ElidingLabel" where
  "setFilter filterString s =
     (let s1 = s\<lparr>m_filterString := filterString\<rparr>
      in s1\<lparr>m_filterRegex := \<lparr>pattern = m_filterString s1, caseSensitivity = CaseInsensitive\<rparr>\<rparr>)"

subsection \<open>Painting\<close>

text \<open>
  \<^verbatim>\<open>str.indexOf(rx, from)\<close> is the first index at or after \<open>from\<close> where \<open>rx\<close>
  matches, or \<open>-1\<close> when there is none. An expression that matches the empty string
  can match at the end of the string, so the last index tried is the length.
\<close>

definition indexOf :: "'f toolkit \<Rightarrow> string \<Rightarrow> QRegExp \<Rightarrow> int \<Rightarrow> int" where
  "indexOf tk str rx from =
     (case find (rxMatchAt tk rx str) [nat from ..< Suc (length str)] of
        None \<Rightarrow> - 1
      | Some i \<Rightarrow> int i)"

text \<open>What \<^verbatim>\<open>paintEvent\<close> does on the paint device, in order.\<close>

datatype paint_command = Save | FillRect QRect QColor | Restore | QLabel_paintEvent

text \<open>
  The body of the loop of \<^verbatim>\<open>paintEvent\<close> for a match at \<open>regexIndex\<close>.
  \<^verbatim>\<open>text().left(n)\<close> is \<open>take n\<close> and \<^verbatim>\<open>text().mid(i, n)\<close> is \<open>take n (drop i _)\<close>;
  \<^verbatim>\<open>AZStd::GetMin\<close> is the minimum.
\<close>

definition highlightMatch :: "'f toolkit \<Rightarrow> ElidingLabel \<Rightarrow> QRect \<Rightarrow> nat \<Rightarrow> paint_command list" where
  "highlightMatch tk s textRect regexIndex =
     (let preSelectedText = take regexIndex (label_text s);
          preSelectedTextLength = horizontalAdvance tk preSelectedText;
          selectedText = take (length (m_filterString s)) (drop regexIndex (label_text s));
          selectedTextLength = horizontalAdvance tk selectedText;
          leftSpot = rect_left textRect + preSelectedTextLength
      in if leftSpot < rect_right textRect then
           let visibleLength = min selectedTextLength (rect_right textRect - leftSpot);
               highlightRect = mkRect (rect_left textRect + preSelectedTextLength)
                                 (rect_top textRect) visibleLength (rect_height textRect)
           in [FillRect highlightRect (backgroundColor tk)]
         else [])"

lemma find_Some_member: "find P xs = Some x \<Longrightarrow> x \<in> set xs \<and> P x"
  by (induction xs) (auto split: if_splits)

lemma indexOf_range:
  assumes "0 \<le> indexOf tk str rx from"
  shows "from \<le> indexOf tk str rx from \<and> indexOf tk str rx from \<le> int (length str)"
proof -
  from assms obtain i where f: "find (rxMatchAt tk rx str) [nat from ..< Suc (length str)] = Some i"
    and r: "indexOf tk str rx from = int i"
    by (auto simp: indexOf_def split: option.splits)
  from find_Some_member [OF f] have "nat from \<le> i \<and> i < Suc (length str)"
    by (simp del: upt_Suc)
  with r show ?thesis by auto
qed

text \<open>
  The loop \<^verbatim>\<open>while ((regexIndex = text().indexOf(m_filterRegex, regexIndex + 1)) >= 0)\<close>.
\<close>

function highlightLoop :: "'f toolkit \<Rightarrow> ElidingLabel \<Rightarrow> QRect \<Rightarrow> int \<Rightarrow> paint_command list" where
  "highlightLoop tk s textRect regexIndex =
     (let regexIndex' = indexOf tk (label_text s) (m_filterRegex s) (regexIndex + 1)
      in if regexIndex' \<ge> 0
         then highlightMatch tk s textRect (nat regexIndex') @ highlightLoop tk s textRect regexIndex'
         else [])"
  by pat_completeness auto
termination
proof (relation "measure (\<lambda>(tk, s, r, i). nat (int (length (label_text s)) + 1 - i))", goal_cases)
  case 1
  show ?case by simp
next
  case (2 tk s textRect regexIndex x)
  from indexOf_range [of tk "label_text s" "m_filterRegex s" "regexIndex + 1"] 2
  show ?case by auto
qed

declare highlightLoop.simps [simp del]

definition paintEvent :: "'f toolkit \<Rightarrow> ElidingLabel \<Rightarrow> paint_command list" where
  "paintEvent tk s =
     (if m_filterString s = [] then [QLabel_paintEvent]
      else
        let textRect = TextRect tk s;
            regexIndex = - 1
        in [Save] @ highlightLoop tk s textRect regexIndex @ [Restore] @ [QLabel_paintEvent])"

text \<open>
  The constructor: the members are default-constructed, the mode is \<^verbatim>\<open>Qt::ElideRight\<close>,
  and the text goes through \<^verbatim>\<open>setText\<close>. The geometry the toolkit starts the label
  with is a parameter.
\<close>

definition ElidingLabel_new :: "'f toolkit \<Rightarrow> QRect \<Rightarrow> int \<Rightarrow> int \<Rightarrow> string \<Rightarrow> ElidingLabel" where
  "ElidingLabel_new tk rect ind fw text =
     setText tk text
       \<lparr>m_text = [], m_elidedText = [], m_description = [], m_elideMode = ElideRight,
        m_filterString = [], m_filterRegex = \<lparr>pattern = [], caseSensitivity = CaseSensitive\<rparr>,
        metricsLabel_text = [], label_text = [], toolTip = [], contentsRect = rect,
        indent = ind, frameWidth = fw, notifications = []\<rparr>"

subsection \<open>A small toolkit for worked examples\<close>

text \<open>
  The examples below run the widget on a toolkit with a fixed-pitch font, every
  character 8 pixels wide, markup with the single tag \<^verbatim>\<open><b>\<close>, and regular
  expressions without metacharacters, which match their pattern literally under
  the case sensitivity of the expression. \<open>example_elidedText\<close> keeps the
  characters that fit beside the ellipsis, and the whole string when it fits or the
  mode is \<open>ElideNone\<close>.
\<close>

definition lower :: "char \<Rightarrow> char" where
  "lower c = (let n = (of_char c :: nat) in if 65 \<le> n \<and> n \<le> 90 then char_of (n + 32) else c)"

fun parseBold :: "bool \<Rightarrow> bool \<Rightarrow> bool \<Rightarrow> string \<Rightarrow> bool QTextDocument" where
  "parseBold inTag closing bold [] = []"
| "parseBold inTag closing bold (c # cs) =
     (if inTag then
        (if c = CHR ''>'' then parseBold False False bold cs
         else if c = CHR ''/'' then parseBold True True bold cs
         else if c = CHR ''b'' then parseBold True closing (\<not> closing) cs
         else parseBold True closing bold cs)
      else if c = CHR ''<'' then parseBold True False bold cs
      else (c, bold) # parseBold False False bold cs)"

fun printBold :: "bool \<Rightarrow> bool QTextDocument \<Rightarrow> string" where
  "printBold bold [] = (if bold then ''</b>'' else [])"
| "printBold bold ((c, f) # d) =
     (if f = bold then c # printBold bold d
      else if f then ''<b>'' @ c # printBold True d
      else ''</b>'' @ c # printBold False d)"

definition example_elidedText :: "string \<Rightarrow> TextElideMode \<Rightarrow> int \<Rightarrow> string" where
  "example_elidedText str mode w =
     (if mode = ElideNone \<or> 8 * int (length str) \<le> w then str
      else
        let k = nat (w div 8) - length ellipsis
        in case mode of
             ElideLeft \<Rightarrow> ellipsis @ drop (length str - k) str
           | ElideRight \<Rightarrow> take k str @ ellipsis
           | ElideMiddle \<Rightarrow> take (k div 2) str @ ellipsis @ drop (length str - (k - k div 2)) str
           | ElideNone \<Rightarrow> str)"

definition example_match :: "QRegExp \<Rightarrow> string \<Rightarrow> nat \<Rightarrow> bool" where
  "example_match rx str i =
     (let n = length (pattern rx);
          candidate = take n (drop i str)
      in i + n \<le> length str \<and>
         (if caseSensitivity rx = CaseInsensitive
          then map lower candidate = map lower (pattern rx)
          else candidate = pattern rx))"

definition example_toolkit :: "bool toolkit" where
  "example_toolkit =
     \<lparr>mightBeRichText = (\<lambda>str. CHR ''<'' \<in> set str),
      horizontalAdvance = (\<lambda>str. 8 * int (length str)),
      elidedText = example_elidedText,
      setHtml = parseBold False False False,
      toHtml = printBold False,
      docWidth = (\<lambda>d. 8 * real (length d)),
      charFormat = (\<lambda>d p. if p = 0 \<or> length d < p then False else snd (d ! (p - 1))),
      rxMatchAt = example_match,
      defaultMinimumSizeHint = \<lparr>wd = 40, ht = 16\<rparr>,
      backgroundColor = ''#707070''\<rparr>"

text \<open>A label 200 pixels wide and 20 high, without frame, with the default indent.\<close>

definition example_label :: "string \<Rightarrow> ElidingLabel" where
  "example_label text = ElidingLabel_new example_toolkit (mkRect 0 0 200 20) (- 1) 0 text"

subsection \<open>Notions the properties are stated with\<close>

text \<open>
  The first half of the guard of the deletion loop: the document and the reserved
  width together exceed the available width.
\<close>

definition overflows :: "'f toolkit \<Rightarrow> int \<Rightarrow> int \<Rightarrow> 'f QTextDocument \<Rightarrow> bool" where
  "overflows tk ellipsisWidth maxLineWidth d =
     (real_of_int maxLineWidth < docWidth tk d + real_of_int ellipsisWidth)"

text \<open>The number of positions of a string at which an ellipsis marker starts.\<close>

fun countMarkers :: "string \<Rightarrow> nat" where
  "countMarkers [] = 0"
| "countMarkers (c # cs) =
     (if take (length ellipsis) (c # cs) = ellipsis then 1 else 0) + countMarkers cs"

text \<open>
  The text might be rich text and its document is wider than the text rectangle: the
  case in which \<^verbatim>\<open>elide()\<close> truncates a document.
\<close>

definition overflowingRichText :: "'f toolkit \<Rightarrow> ElidingLabel \<Rightarrow> bool" where
  "overflowingRichText tk s =
     (mightBeRichText tk (m_text s) \<and>
      \<not> docWidth tk (setHtml tk (m_text s)) \<le> real_of_int (rect_width (TextRect tk s)))"

text \<open>The document that \<^verbatim>\<open>elide()\<close> serialises in that case.\<close>

definition truncatedDocument :: "'f toolkit \<Rightarrow> ElidingLabel \<Rightarrow> 'f QTextDocument" where
  "truncatedDocument tk s =
     truncateDocument tk (m_elideMode s) (rect_width (TextRect tk s)) (setHtml tk (m_text s))"

text \<open>
  The kept prefix: the text of the document of the full text without the characters
  that the deletion loop removes.
\<close>

definition keptText :: "'f toolkit \<Rightarrow> ElidingLabel \<Rightarrow> string" where
  "keptText tk s =
     (let doc = setHtml tk (m_text s);
          ellipsisWidth =
            (if m_elideMode s = ElideRight then horizontalAdvance tk ellipsis else 0)
      in take (length doc
                 - deleteLoop_iterations tk ellipsisWidth (rect_width (TextRect tk s))
                     (cursorAtEnd doc))
           (toPlainText doc))"

text \<open>
  Every index of a string from \<open>a\<close> on at which the expression matches, in
  increasing order.
\<close>

definition matchesFrom :: "'f toolkit \<Rightarrow> QRegExp \<Rightarrow> string \<Rightarrow> nat \<Rightarrow> nat list" where
  "matchesFrom tk rx str a = filter (rxMatchAt tk rx str) [a ..< Suc (length str)]"

text \<open>
  The left edge of a highlight: the left edge of the text rectangle plus the measured
  width of the text before the match. Its width: the measured width of as many
  characters from the match on as the filter string has, clipped at the right edge of
  the text rectangle.
\<close>

definition highlightLeft :: "'f toolkit \<Rightarrow> ElidingLabel \<Rightarrow> QRect \<Rightarrow> nat \<Rightarrow> int" where
  "highlightLeft tk s r i = rect_left r + horizontalAdvance tk (take i (label_text s))"

definition highlightWidth :: "'f toolkit \<Rightarrow> ElidingLabel \<Rightarrow> QRect \<Rightarrow> nat \<Rightarrow> int" where
  "highlightWidth tk s r i =
     min (horizontalAdvance tk (take (length (m_filterString s)) (drop i (label_text s))))
         (rect_right r - highlightLeft tk s r i)"

text \<open>The displayed text is what a recompute would produce now.\<close>

definition displayCurrent :: "'f toolkit \<Rightarrow> ElidingLabel \<Rightarrow> bool" where
  "displayCurrent tk s = (label_text s = elidedString tk s)"

text \<open>
  Example widgets: a label whose text has an ellipsis of its own, after a resize to 64
  pixels in mode \<open>ElideNone\<close> and after a resize to 80 pixels in mode \<open>ElideRight\<close>;
  a filtered label whose match starts on the right edge of the text rectangle; and a
  label whose mode is changed after the elision.
\<close>

definition ownEllipsis_ElideNone :: ElidingLabel where
  "ownEllipsis_ElideNone =
     resize example_toolkit (mkRect 0 0 64 20)
       (setElideMode ElideNone (example_label ''<b>Wait... for it</b>''))"

definition ownEllipsis_ElideRight :: ElidingLabel where
  "ownEllipsis_ElideRight =
     resize example_toolkit (mkRect 0 0 80 20) (example_label ''<b>Wait... for it</b>'')"

definition matchOnRightEdge :: ElidingLabel where
  "matchOnRightEdge =
     setFilter ''qu''
       (resize example_toolkit (mkRect 0 0 33 20)
          (setElideMode ElideNone (example_label ''The Quick Fox'')))"

definition modeChangedAfterElision :: ElidingLabel where
  "modeChangedAfterElision =
     setElideMode ElideNone
       (resize example_toolkit (mkRect 0 0 64 20) (example_label ''<b>Hello</b> World''))"


text \<open>
  The example toolkit for a widget without layout, for which
  \<^verbatim>\<open>QWidget::minimumSizeHint()\<close> is the invalid size \<open>(-1, -1)\<close>.
\<close>

definition layoutless_toolkit :: "bool toolkit" where
  "layoutless_toolkit = example_toolkit\<lparr>defaultMinimumSizeHint := \<lparr>wd = - 1, ht = - 1\<rparr>\<rparr>"

text \<open>
  Example widgets 64 pixels wide: a rich text with a full stop in mode \<open>ElideRight\<close>,
  and a rich text in mode \<open>ElideNone\<close>.
\<close>

definition fullStop_ElideRight :: ElidingLabel where
  "fullStop_ElideRight =
     (example_label ''<b>a.b</b> Hello World'')\<lparr>contentsRect := mkRect 0 0 64 20\<rparr>"

definition plain_ElideNone :: ElidingLabel where
  "plain_ElideNone =
     (setElideMode ElideNone (example_label ''<b>Hello</b> World''))
       \<lparr>contentsRect := mkRect 0 0 64 20\<rparr>"

section \<open>Properties\<close>

subsection \<open>What a recompute reads and writes\<close>

lemma elidedString_cong:
  assumes "m_text s' = m_text s" and "m_elideMode s' = m_elideMode s"
    and "contentsRect s' = contentsRect s" and "indent s' = indent s"
    and "frameWidth s' = frameWidth s"
  shows "elidedString tk s' = elidedString tk s"
proof -
  have "TextRect tk s' = TextRect tk s"
    unfolding TextRect_def using assms by (simp cong: if_cong)
  then show ?thesis
    unfolding elidedString_def elideRichText_def using assms by (simp cong: if_cong)
qed

lemma elide_text_fields:
  "m_elidedText (elide tk s) = elidedString tk s"
  "label_text (elide tk s) = elidedString tk s"
  "m_text (elide tk s) = m_text s"
  "m_description (elide tk s) = m_description s"
  "m_elideMode (elide tk s) = m_elideMode s"
  "metricsLabel_text (elide tk s) = metricsLabel_text s"
  "notifications (elide tk s) = notifications s"
  by (simp_all add: elide_def Let_def)

lemma elide_geometry_fields:
  "contentsRect (elide tk s) = contentsRect s"
  "indent (elide tk s) = indent s"
  "frameWidth (elide tk s) = frameWidth s"
  "m_filterString (elide tk s) = m_filterString s"
  "m_filterRegex (elide tk s) = m_filterRegex s"
  by (simp_all add: elide_def Let_def)

lemma elide_toolTip:
  "toolTip (elide tk s) =
     (if elidedString tk s \<noteq> m_text s
      then (if m_description s = [] then m_text s else m_text s @ [CHR 0x0A] @ m_description s)
      else m_description s)"
  by (simp add: elide_def Let_def)

lemma handleElision_elide:
  "label_text (handleElision tk g s) = elidedString tk s"
  "m_elidedText (handleElision tk g s) = elidedString tk s"
  "toolTip (handleElision tk g s) = toolTip (elide tk s)"
  "m_text (handleElision tk g s) = m_text s"
  "m_description (handleElision tk g s) = m_description s"
  "m_elideMode (handleElision tk g s) = m_elideMode s"
  "metricsLabel_text (handleElision tk g s) = metricsLabel_text s"
  "contentsRect (handleElision tk g s) = contentsRect s"
  "indent (handleElision tk g s) = indent s"
  "frameWidth (handleElision tk g s) = frameWidth s"
  "notifications (handleElision tk g s) = notifications s @ (if g then [UpdateGeometry] else [])"
proof -
  have e: "elidedString tk (s\<lparr>m_elidedText := []\<rparr>) = elidedString tk s"
    by (rule elidedString_cong) simp_all
  show "label_text (handleElision tk g s) = elidedString tk s"
    by (simp add: handleElision_def Let_def elide_text_fields e)
  show "m_elidedText (handleElision tk g s) = elidedString tk s"
    by (simp add: handleElision_def Let_def elide_text_fields e)
  show "toolTip (handleElision tk g s) = toolTip (elide tk s)"
    by (simp add: handleElision_def Let_def elide_toolTip e)
  show "m_text (handleElision tk g s) = m_text s"
    by (simp add: handleElision_def Let_def elide_text_fields)
  show "m_description (handleElision tk g s) = m_description s"
    by (simp add: handleElision_def Let_def elide_text_fields)
  show "m_elideMode (handleElision tk g s) = m_elideMode s"
    by (simp add: handleElision_def Let_def elide_text_fields)
  show "metricsLabel_text (handleElision tk g s) = metricsLabel_text s"
    by (simp add: handleElision_def Let_def elide_text_fields)
  show "contentsRect (handleElision tk g s) = contentsRect s"
    by (simp add: handleElision_def Let_def elide_geometry_fields)
  show "indent (handleElision tk g s) = indent s"
    by (simp add: handleElision_def Let_def elide_geometry_fields)
  show "frameWidth (handleElision tk g s) = frameWidth s"
    by (simp add: handleElision_def Let_def elide_geometry_fields)
  show "notifications (handleElision tk g s) = notifications s @ (if g then [UpdateGeometry] else [])"
    by (simp add: handleElision_def Let_def elide_text_fields)
qed

subsection \<open>Size hint\<close>

lemma sint_INT_MAX: "sint INT_MAX = 2147483647"
  by (simp add: INT_MAX_def)

lemma qMin_INT_MAX: "qMin h INT_MAX = h"
proof (cases "sint h < sint INT_MAX")
  case True
  then show ?thesis by (simp add: qMin_def)
next
  case False
  have "sint h < 2 ^ (LENGTH(32) - 1)" by (rule sint_lt)
  then have "sint h \<le> 2147483647" by simp
  with False have "sint h = sint INT_MAX" by (simp add: sint_INT_MAX)
  then have "h = INT_MAX" by (rule signed_word_eqI)
  then show ?thesis by (simp add: qMin_def)
qed

text \<open>
  C9 (as amended). The minimum size hint is the toolkit's default minimum size hint with
  the width bounded above by zero, and the height as the toolkit computed it (no 32-bit
  height exceeds \<open>INT_MAX\<close>): a default width of zero or more becomes zero, a negative
  default width stays as it is.
\<close>

theorem minimumSizeHint_clamps_width:
  "minimumSizeHint tk =
     \<lparr>wd = (if sint (wd (defaultMinimumSizeHint tk)) < 0
            then wd (defaultMinimumSizeHint tk) else 0),
      ht = ht (defaultMinimumSizeHint tk)\<rparr>"
  by (simp add: minimumSizeHint_def boundedTo_def qMin_INT_MAX) (simp add: qMin_def)

theorem minimumSizeHint_clamps_width_witness:
  "minimumSizeHint example_toolkit = \<lparr>wd = 0, ht = 16\<rparr> \<and>
   minimumSizeHint layoutless_toolkit = \<lparr>wd = - 1, ht = - 1\<rparr>"
  using minimumSizeHint_clamps_width [of example_toolkit]
    minimumSizeHint_clamps_width [of layoutless_toolkit]
  by (simp add: example_toolkit_def layoutless_toolkit_def)

text \<open>
  For a widget without layout the default minimum size hint is \<open>(-1, -1)\<close>, and the
  width of the minimum size hint is \<open>-1\<close>, not zero.
\<close>

theorem minimumSizeHint_negative_default_counterexample:
  "defaultMinimumSizeHint layoutless_toolkit = \<lparr>wd = - 1, ht = - 1\<rparr> \<and>
   minimumSizeHint layoutless_toolkit = \<lparr>wd = - 1, ht = - 1\<rparr> \<and>
   wd (minimumSizeHint layoutless_toolkit) \<noteq> 0"
  by (simp add: minimumSizeHint_def boundedTo_def qMin_def INT_MAX_def
        layoutless_toolkit_def example_toolkit_def)

subsection \<open>Setting the filter\<close>

text \<open>
  C10. \<open>setFilter\<close> stores the pattern and the case-insensitive expression built from
  it, and nothing else: the texts, the tooltip, the description, the mode and the
  geometry are as before, and no signal, geometry update or repaint request is issued.
\<close>

theorem setFilter_changes_only_the_filter:
  "m_filterString (setFilter f s) = f \<and>
   m_filterRegex (setFilter f s) = \<lparr>pattern = f, caseSensitivity = CaseInsensitive\<rparr> \<and>
   setFilter f s = s\<lparr>m_filterString := f, m_filterRegex := m_filterRegex (setFilter f s)\<rparr> \<and>
   m_text (setFilter f s) = m_text s \<and>
   m_elidedText (setFilter f s) = m_elidedText s \<and>
   label_text (setFilter f s) = label_text s \<and>
   toolTip (setFilter f s) = toolTip s \<and>
   m_description (setFilter f s) = m_description s \<and>
   m_elideMode (setFilter f s) = m_elideMode s \<and>
   metricsLabel_text (setFilter f s) = metricsLabel_text s \<and>
   contentsRect (setFilter f s) = contentsRect s \<and>
   notifications (setFilter f s) = notifications s"
  by (simp add: setFilter_def)

theorem setFilter_changes_only_the_filter_witness:
  "label_text (setFilter ''qu'' (example_label ''The Quick Fox'')) = ''The Quick Fox'' \<and>
   notifications (setFilter ''qu'' (example_label ''The Quick Fox''))
     = [ElisionRequired True, UpdateGeometry]"
proof -
  have l: "label_text (example_label ''The Quick Fox'') = ''The Quick Fox''"
    by code_simp
  have n: "notifications (example_label ''The Quick Fox'') = [ElisionRequired True, UpdateGeometry]"
    by code_simp
  from setFilter_changes_only_the_filter [of "''qu''" "example_label ''The Quick Fox''"] l n
  show ?thesis by simp
qed

subsection \<open>Setting the text\<close>

lemma emit_elisionRequired_fields:
  "label_text (emit_elisionRequired tk g s) = elidedString tk s"
  "m_elidedText (emit_elisionRequired tk g s) = elidedString tk s"
  "m_text (emit_elisionRequired tk g s) = m_text s"
  "metricsLabel_text (emit_elisionRequired tk g s) = metricsLabel_text s"
  "notifications (emit_elisionRequired tk g s)
     = notifications s @ [ElisionRequired g] @ (if g then [UpdateGeometry] else [])"
proof -
  let ?s = "s\<lparr>notifications := notifications s @ [ElisionRequired g]\<rparr>"
  have e: "elidedString tk ?s = elidedString tk s"
    by (rule elidedString_cong) simp_all
  show "label_text (emit_elisionRequired tk g s) = elidedString tk s"
    by (simp add: emit_elisionRequired_def handleElision_elide e)
  show "m_elidedText (emit_elisionRequired tk g s) = elidedString tk s"
    by (simp add: emit_elisionRequired_def handleElision_elide e)
  show "m_text (emit_elisionRequired tk g s) = m_text s"
    by (simp add: emit_elisionRequired_def handleElision_elide)
  show "metricsLabel_text (emit_elisionRequired tk g s) = metricsLabel_text s"
    by (simp add: emit_elisionRequired_def handleElision_elide)
  show "notifications (emit_elisionRequired tk g s)
     = notifications s @ [ElisionRequired g] @ (if g then [UpdateGeometry] else [])"
    by (simp add: emit_elisionRequired_def handleElision_elide)
qed

text \<open>
  C6. Setting the text to the stored text returns the widget as it is: no signal, and
  the stored text, the text of the metrics label, the displayed text and the tooltip
  are unchanged. Setting a different text stores it, copies it to the metrics label,
  emits \<^verbatim>\<open>elisionRequired(true)\<close>, whose slot recomputes the elision for the new
  text and then calls \<^verbatim>\<open>updateGeometry()\<close>.
\<close>

theorem setText_same_noop_different_recompute:
  "setText tk (m_text s) s = s \<and>
   notifications (setText tk (m_text s) s) = notifications s \<and>
   (text \<noteq> m_text s \<longrightarrow>
      m_text (setText tk text s) = text \<and>
      metricsLabel_text (setText tk text s) = text \<and>
      notifications (setText tk text s)
        = notifications s @ [ElisionRequired True, UpdateGeometry] \<and>
      m_elidedText (setText tk text s) = elidedString tk (s\<lparr>m_text := text\<rparr>) \<and>
      label_text (setText tk text s) = elidedString tk (s\<lparr>m_text := text\<rparr>))"
proof -
  let ?s = "s\<lparr>m_text := text, metricsLabel_text := text\<rparr>"
  have e: "elidedString tk ?s = elidedString tk (s\<lparr>m_text := text\<rparr>)"
    by (rule elidedString_cong) simp_all
  show ?thesis
    by (simp add: setText_def emit_elisionRequired_fields e)
qed

theorem setText_same_noop_different_recompute_witness:
  "setText example_toolkit ''abc'' (example_label ''abc'') = example_label ''abc'' \<and>
   ''<b>Hello</b>'' \<noteq> m_text (example_label ''abc'') \<and>
   m_text (setText example_toolkit ''<b>Hello</b>'' (example_label ''abc'')) = ''<b>Hello</b>'' \<and>
   notifications (setText example_toolkit ''<b>Hello</b>'' (example_label ''abc''))
     = [ElisionRequired True, UpdateGeometry, ElisionRequired True, UpdateGeometry]"
proof -
  have t: "m_text (example_label ''abc'') = ''abc''"
    by code_simp
  have n: "notifications (example_label ''abc'') = [ElisionRequired True, UpdateGeometry]"
    by code_simp
  from setText_same_noop_different_recompute
         [of example_toolkit "example_label ''abc''" "''<b>Hello</b>''"] t n
  show ?thesis by simp
qed

subsection \<open>The recompute\<close>

text \<open>
  C2. When the text might be rich text and the width of its document, laid out on one
  line without margin, is at most the width of the text rectangle, the recompute stores
  and displays the full text itself.
\<close>

theorem richText_that_fits_is_unchanged:
  assumes "mightBeRichText tk (m_text s)"
    and "docWidth tk (setHtml tk (m_text s)) \<le> real_of_int (rect_width (TextRect tk s))"
  shows "m_elidedText (elide tk s) = m_text s \<and> label_text (elide tk s) = m_text s \<and>
         m_elidedText (handleElision tk g s) = m_text s \<and>
         label_text (handleElision tk g s) = m_text s"
proof -
  from assms have "elidedString tk s = m_text s"
    by (simp add: elidedString_def elideRichText_def)
  then show ?thesis
    by (simp add: elide_text_fields handleElision_elide)
qed

theorem richText_that_fits_is_unchanged_witness:
  "mightBeRichText example_toolkit (m_text (example_label ''Hello <b>World</b>'')) \<and>
   docWidth example_toolkit (setHtml example_toolkit (m_text (example_label ''Hello <b>World</b>'')))
     \<le> real_of_int (rect_width (TextRect example_toolkit (example_label ''Hello <b>World</b>''))) \<and>
   label_text (handleElision example_toolkit False (example_label ''Hello <b>World</b>''))
     = ''Hello <b>World</b>''"
proof -
  have t: "m_text (example_label ''Hello <b>World</b>'') = ''Hello <b>World</b>''"
    by code_simp
  have r: "mightBeRichText example_toolkit ''Hello <b>World</b>''"
    by (simp add: example_toolkit_def)
  have w: "rect_width (TextRect example_toolkit (example_label ''Hello <b>World</b>'')) = 200"
    by code_simp
  have d: "docWidth example_toolkit (setHtml example_toolkit ''Hello <b>World</b>'') = 88"
    by (simp add: example_toolkit_def)
  from richText_that_fits_is_unchanged
         [of example_toolkit "example_label ''Hello <b>World</b>''" False] t r w d
  show ?thesis by simp
qed

text \<open>
  C5. After a recompute, when the displayed text differs from the full text the tooltip
  is the full text, followed by a line feed and the description when there is one;
  when the displayed text is the full text the tooltip is the description.
\<close>

theorem tooltip_follows_elision:
  "m_text (handleElision tk g s) = m_text s \<and>
   m_description (handleElision tk g s) = m_description s \<and>
   (label_text (handleElision tk g s) \<noteq> m_text s \<longrightarrow>
      toolTip (handleElision tk g s)
        = (if m_description s = [] then m_text s
           else m_text s @ [CHR 0x0A] @ m_description s)) \<and>
   (label_text (handleElision tk g s) = m_text s \<longrightarrow>
      toolTip (handleElision tk g s) = m_description s) \<and>
   (label_text (elide tk s) \<noteq> m_text s \<longrightarrow>
      toolTip (elide tk s)
        = (if m_description s = [] then m_text s
           else m_text s @ [CHR 0x0A] @ m_description s)) \<and>
   (label_text (elide tk s) = m_text s \<longrightarrow> toolTip (elide tk s) = m_description s)"
  by (simp add: handleElision_elide elide_text_fields elide_toolTip)

subsection \<open>The deletion loop\<close>

lemma deleteLoop_stop:
  assumes "\<not> overflows tk ew mw (fst cur) \<or> atStart cur"
  shows "deleteLoop tk ew mw cur = cur" and "deleteLoop_iterations tk ew mw cur = 0"
proof -
  show "deleteLoop tk ew mw cur = cur"
    using assms by (subst deleteLoop.simps) (auto simp: overflows_def)
  show "deleteLoop_iterations tk ew mw cur = 0"
    using assms by (subst deleteLoop_iterations.simps) (auto simp: overflows_def)
qed

lemma deleteLoop_step:
  assumes "overflows tk ew mw (fst cur)" and "\<not> atStart cur"
  shows "deleteLoop tk ew mw cur = deleteLoop tk ew mw (deletePreviousChar cur)"
    and "deleteLoop_iterations tk ew mw cur
           = Suc (deleteLoop_iterations tk ew mw (deletePreviousChar cur))"
proof -
  show "deleteLoop tk ew mw cur = deleteLoop tk ew mw (deletePreviousChar cur)"
    using assms by (subst deleteLoop.simps) (simp add: overflows_def)
  show "deleteLoop_iterations tk ew mw cur
           = Suc (deleteLoop_iterations tk ew mw (deletePreviousChar cur))"
    using assms by (subst deleteLoop_iterations.simps) (simp add: overflows_def)
qed

lemma deleteLoop_funpow:
  "deleteLoop tk ew mw cur = (deletePreviousChar ^^ deleteLoop_iterations tk ew mw cur) cur"
proof (induction tk ew mw cur rule: deleteLoop.induct)
  case (1 tk ew mw cur)
  show ?case
  proof (cases "overflows tk ew mw (fst cur) \<and> \<not> atStart cur")
    case True
    with 1 have ih: "deleteLoop tk ew mw (deletePreviousChar cur)
        = (deletePreviousChar ^^ deleteLoop_iterations tk ew mw (deletePreviousChar cur))
            (deletePreviousChar cur)"
      by (simp add: overflows_def)
    from True have o: "overflows tk ew mw (fst cur)" and a: "\<not> atStart cur" by simp_all
    show ?thesis
      by (simp only: deleteLoop_step [OF o a] ih funpow_Suc_right o_apply)
  next
    case False
    then have "\<not> overflows tk ew mw (fst cur) \<or> atStart cur" by simp
    then show ?thesis by (simp add: deleteLoop_stop)
  qed
qed

lemma deleteLoop_at_end:
  "deleteLoop_iterations tk ew mw (d, length d) \<le> length d \<and>
   deleteLoop tk ew mw (d, length d)
     = (take (length d - deleteLoop_iterations tk ew mw (d, length d)) d,
        length d - deleteLoop_iterations tk ew mw (d, length d)) \<and>
   (\<forall>k < deleteLoop_iterations tk ew mw (d, length d).
      overflows tk ew mw (take (length d - k) d)) \<and>
   (\<not> overflows tk ew mw (take (length d - deleteLoop_iterations tk ew mw (d, length d)) d)
      \<or> deleteLoop_iterations tk ew mw (d, length d) = length d)"
proof (induction d rule: rev_induct)
  case Nil
  have "\<not> overflows tk ew mw (fst ([], 0)) \<or> atStart ([]::'a QTextDocument, 0::nat)"
    by (simp add: atStart_def)
  from deleteLoop_stop [OF this] show ?case by simp
next
  case (snoc x b)
  let ?d = "b @ [x]"
  let ?n = "deleteLoop_iterations tk ew mw (b, length b)"
  show ?case
  proof (cases "overflows tk ew mw ?d")
    case False
    then have "\<not> overflows tk ew mw (fst (?d, length ?d)) \<or> atStart (?d, length ?d)"
      by simp
    from deleteLoop_stop [OF this] False show ?thesis by simp
  next
    case True
    have dp: "deletePreviousChar (?d, length ?d) = (b, length b)"
      by (simp add: deletePreviousChar_def)
    have o: "overflows tk ew mw (fst (?d, length ?d))" using True by simp
    have a: "\<not> atStart (?d, length ?d)" by (simp add: atStart_def)
    have st: "deleteLoop tk ew mw (?d, length ?d) = deleteLoop tk ew mw (b, length b)"
      and it: "deleteLoop_iterations tk ew mw (?d, length ?d) = Suc ?n"
      using deleteLoop_step [OF o a] by (simp_all only: dp)
    have c: "\<forall>k < Suc ?n. overflows tk ew mw (take (length ?d - k) ?d)"
    proof (intro allI impI)
      fix k assume k: "k < Suc ?n"
      show "overflows tk ew mw (take (length ?d - k) ?d)"
      proof (cases k)
        case 0
        with True show ?thesis by simp
      next
        case (Suc j)
        with k have "j < ?n" by simp
        with snoc have "overflows tk ew mw (take (length b - j) b)" by blast
        with Suc show ?thesis by simp
      qed
    qed
    from snoc c show ?thesis unfolding st it by auto
  qed
qed


text \<open>
  C3. From the cursor at the end of a document, whatever the widths, the loop runs at
  most as many times as the document has characters; it is that many applications of
  \<open>deletePreviousChar\<close>, which leave a prefix of the document with the cursor behind
  it; every iteration began with an overflow, and at the exit the rest fits or the
  cursor is at the start. For a width of zero or less and a reserve that is not
  negative, when every non-empty prefix has a positive width, the loop ends with the
  empty document.
\<close>

theorem deleteLoop_bounded_by_character_count:
  "deleteLoop_iterations tk ew mw (cursorAtEnd d) \<le> length d \<and>
   deleteLoop tk ew mw (cursorAtEnd d)
     = (deletePreviousChar ^^ deleteLoop_iterations tk ew mw (cursorAtEnd d)) (cursorAtEnd d) \<and>
   deleteLoop tk ew mw (cursorAtEnd d)
     = (take (length d - deleteLoop_iterations tk ew mw (cursorAtEnd d)) d,
        length d - deleteLoop_iterations tk ew mw (cursorAtEnd d)) \<and>
   (\<forall>k < deleteLoop_iterations tk ew mw (cursorAtEnd d).
      overflows tk ew mw (take (length d - k) d)) \<and>
   (\<not> overflows tk ew mw (fst (deleteLoop tk ew mw (cursorAtEnd d)))
      \<or> atStart (deleteLoop tk ew mw (cursorAtEnd d))) \<and>
   (mw \<le> 0 \<and> 0 \<le> ew \<and> (\<forall>k. 0 < k \<and> k \<le> length d \<longrightarrow> 0 < docWidth tk (take k d))
      \<longrightarrow> deleteLoop tk ew mw (cursorAtEnd d) = ([], 0))"
proof -
  let ?n = "deleteLoop_iterations tk ew mw (d, length d)"
  note e = deleteLoop_at_end [of tk ew mw d]
  from e have le: "?n \<le> length d" by blast
  from e have res: "deleteLoop tk ew mw (d, length d) = (take (length d - ?n) d, length d - ?n)"
    by blast
  from e have before: "\<forall>k < ?n. overflows tk ew mw (take (length d - k) d)" by blast
  from e have exit: "\<not> overflows tk ew mw (take (length d - ?n) d) \<or> ?n = length d" by blast
  have ex: "\<not> overflows tk ew mw (fst (deleteLoop tk ew mw (d, length d)))
              \<or> atStart (deleteLoop tk ew mw (d, length d))"
    using exit le by (auto simp: res atStart_def)
  have deg: "deleteLoop tk ew mw (d, length d) = ([], 0)"
    if h: "mw \<le> 0 \<and> 0 \<le> ew \<and> (\<forall>k. 0 < k \<and> k \<le> length d \<longrightarrow> 0 < docWidth tk (take k d))"
  proof (cases "?n = length d")
    case True
    then show ?thesis by (simp add: res)
  next
    case False
    with le have "0 < length d - ?n \<and> length d - ?n \<le> length d" by simp
    with h have "0 < docWidth tk (take (length d - ?n) d)" by blast
    with h have "overflows tk ew mw (take (length d - ?n) d)"
      by (simp add: overflows_def)
    with exit False show ?thesis by simp
  qed
  from le deleteLoop_funpow [of tk ew mw "(d, length d)"] res before ex deg
  show ?thesis unfolding cursorAtEnd_def by blast
qed

theorem deleteLoop_bounded_by_character_count_witness:
  "deleteLoop_iterations example_toolkit 24 64
       (cursorAtEnd (setHtml example_toolkit ''<b>Hello</b> World'')) = 6 \<and>
   length (setHtml example_toolkit ''<b>Hello</b> World'') = 11 \<and>
   toPlainText (fst (deleteLoop example_toolkit 24 64
       (cursorAtEnd (setHtml example_toolkit ''<b>Hello</b> World'')))) = ''Hello'' \<and>
   deleteLoop example_toolkit 24 0
       (cursorAtEnd (setHtml example_toolkit ''<b>Hello</b> World'')) = ([], 0)"
proof -
  let ?d = "setHtml example_toolkit ''<b>Hello</b> World''"
  have n: "deleteLoop_iterations example_toolkit 24 64 (cursorAtEnd ?d) = 6"
    by code_simp
  have l: "length ?d = 11"
    by code_simp
  have p: "toPlainText (take 5 ?d) = ''Hello''"
    by code_simp
  have w: "\<forall>k. 0 < k \<and> k \<le> length ?d \<longrightarrow> 0 < docWidth example_toolkit (take k ?d)"
    by (simp add: example_toolkit_def)
  from deleteLoop_bounded_by_character_count [of example_toolkit 24 64 ?d]
  have "deleteLoop example_toolkit 24 64 (cursorAtEnd ?d)
      = (take (length ?d - deleteLoop_iterations example_toolkit 24 64 (cursorAtEnd ?d)) ?d,
         length ?d - deleteLoop_iterations example_toolkit 24 64 (cursorAtEnd ?d))"
    by blast
  with n l p
  have a: "toPlainText (fst (deleteLoop example_toolkit 24 64 (cursorAtEnd ?d))) = ''Hello''"
    by simp
  from deleteLoop_bounded_by_character_count [of example_toolkit 24 0 ?d]
  have "(0::int) \<le> 0 \<and> (0::int) \<le> 24 \<and>
        (\<forall>k. 0 < k \<and> k \<le> length ?d \<longrightarrow> 0 < docWidth example_toolkit (take k ?d))
        \<longrightarrow> deleteLoop example_toolkit 24 0 (cursorAtEnd ?d) = ([], 0)"
    by blast
  with w have b: "deleteLoop example_toolkit 24 0 (cursorAtEnd ?d) = ([], 0)"
    by simp
  from n l a b show ?thesis by simp
qed

subsection \<open>The tooltip\<close>

theorem tooltip_follows_elision_witness:
  "label_text (handleElision example_toolkit False
      ((setDescription ''desc'' (example_label ''The Quick Fox''))\<lparr>contentsRect := mkRect 0 0 64 20\<rparr>))
     = ''The Q...'' \<and>
   toolTip (handleElision example_toolkit False
      ((setDescription ''desc'' (example_label ''The Quick Fox''))\<lparr>contentsRect := mkRect 0 0 64 20\<rparr>))
     = ''The Quick Fox'' @ [CHR 0x0A] @ ''desc'' \<and>
   label_text (handleElision example_toolkit False
      (setDescription ''desc'' (example_label ''The Quick Fox''))) = ''The Quick Fox'' \<and>
   toolTip (handleElision example_toolkit False
      (setDescription ''desc'' (example_label ''The Quick Fox''))) = ''desc''"
proof -
  let ?w = "setDescription ''desc'' (example_label ''The Quick Fox'')"
  let ?n = "?w\<lparr>contentsRect := mkRect 0 0 64 20\<rparr>"
  have t: "m_text ?w = ''The Quick Fox''" "m_text ?n = ''The Quick Fox''"
    by code_simp+
  have d: "m_description ?w = ''desc''" "m_description ?n = ''desc''"
    by code_simp+
  have ln: "label_text (handleElision example_toolkit False ?n) = ''The Q...''"
    by code_simp
  have lw: "label_text (handleElision example_toolkit False ?w) = ''The Quick Fox''"
    by code_simp
  from tooltip_follows_elision [of example_toolkit False ?n] t d ln
  have a: "toolTip (handleElision example_toolkit False ?n)
             = ''The Quick Fox'' @ [CHR 0x0A] @ ''desc''"
    by simp
  from tooltip_follows_elision [of example_toolkit False ?w] t d lw
  have b: "toolTip (handleElision example_toolkit False ?w) = ''desc''"
    by simp
  from ln a lw b show ?thesis by simp
qed

subsection \<open>The ellipsis\<close>

lemma countMarkers_append_ellipsis_pos: "0 < countMarkers (p @ ellipsis)"
  by (induction p) (auto simp: ellipsis_def)

lemma countMarkers_append_ellipsis_one:
  "countMarkers (p @ ellipsis) = 1
     \<longleftrightarrow> countMarkers p = 0 \<and> (p = [] \<or> last p \<noteq> CHR ''.'')"
proof (induction p)
  case Nil
  show ?case by (simp add: ellipsis_def)
next
  case (Cons c p)
  have pos: "0 < countMarkers (p @ ellipsis)" by (rule countMarkers_append_ellipsis_pos)
  show ?case
  proof (cases p)
    case Nil
    then show ?thesis by (auto simp: ellipsis_def)
  next
    case (Cons a q)
    note p = Cons
    show ?thesis
    proof (cases q)
      case Nil
      with p Cons.IH pos show ?thesis by (auto simp: ellipsis_def)
    next
      case (Cons b r)
      with p Cons.IH pos show ?thesis by (auto simp: ellipsis_def)
    qed
  qed
qed

lemma truncateDocument_ElideRight:
  "truncateDocument tk ElideRight mw doc
     = fst (insertText tk (deleteLoop tk (horizontalAdvance tk ellipsis) mw (cursorAtEnd doc)) ellipsis)"
  by (simp add: truncateDocument_def Let_def)

lemma truncateDocument_other:
  "mode \<noteq> ElideRight \<Longrightarrow>
     truncateDocument tk mode mw doc = fst (deleteLoop tk 0 mw (cursorAtEnd doc))"
  by (simp add: truncateDocument_def Let_def)

lemma toPlainText_truncateDocument_ElideRight:
  "toPlainText (truncateDocument tk ElideRight mw doc)
     = take (length doc - deleteLoop_iterations tk (horizontalAdvance tk ellipsis) mw (cursorAtEnd doc))
         (toPlainText doc) @ ellipsis"
proof -
  from deleteLoop_at_end [of tk "horizontalAdvance tk ellipsis" mw doc]
  have "deleteLoop tk (horizontalAdvance tk ellipsis) mw (cursorAtEnd doc)
      = (take (length doc - deleteLoop_iterations tk (horizontalAdvance tk ellipsis) mw (cursorAtEnd doc)) doc,
         length doc - deleteLoop_iterations tk (horizontalAdvance tk ellipsis) mw (cursorAtEnd doc))"
    by (simp add: cursorAtEnd_def)
  then show ?thesis
    by (simp add: truncateDocument_ElideRight insertText_def toPlainText_def take_map comp_def)
qed

lemma toPlainText_truncateDocument_other:
  assumes "mode \<noteq> ElideRight"
  shows "toPlainText (truncateDocument tk mode mw doc)
     = take (length doc - deleteLoop_iterations tk 0 mw (cursorAtEnd doc)) (toPlainText doc)"
proof -
  from deleteLoop_at_end [of tk 0 mw doc]
  have "deleteLoop tk 0 mw (cursorAtEnd doc)
      = (take (length doc - deleteLoop_iterations tk 0 mw (cursorAtEnd doc)) doc,
         length doc - deleteLoop_iterations tk 0 mw (cursorAtEnd doc))"
    by (simp add: cursorAtEnd_def)
  with assms show ?thesis
    by (simp add: truncateDocument_other toPlainText_def take_map)
qed

lemma toPlainText_truncatedDocument:
  "toPlainText (truncatedDocument tk s)
     = keptText tk s @ (if m_elideMode s = ElideRight then ellipsis else [])"
proof (cases "m_elideMode s = ElideRight")
  case True
  then show ?thesis
    by (simp add: truncatedDocument_def keptText_def Let_def
          toPlainText_truncateDocument_ElideRight)
next
  case False
  then show ?thesis
    by (simp add: truncatedDocument_def keptText_def Let_def
          toPlainText_truncateDocument_other)
qed

lemma overflowingRichText_display:
  assumes "overflowingRichText tk s"
  shows "m_elidedText (elide tk s) = toHtml tk (truncatedDocument tk s)"
    and "label_text (elide tk s) = toHtml tk (truncatedDocument tk s)"
proof -
  from assms have "elidedString tk s = toHtml tk (truncatedDocument tk s)"
    by (simp add: overflowingRichText_def elidedString_def elideRichText_def
          truncatedDocument_def)
  then show "m_elidedText (elide tk s) = toHtml tk (truncatedDocument tk s)"
    and "label_text (elide tk s) = toHtml tk (truncatedDocument tk s)"
    by (simp_all add: elide_text_fields)
qed

text \<open>
  C4 (as amended). When a rich text overflows, the displayed text is the serialisation
  of the truncated document. The width of the ellipsis is reserved, and the ellipsis
  inserted at the cursor after the loop, for \<open>ElideRight\<close> only: the text of the
  truncated document is the kept prefix of the text of the original document, followed
  by the one ellipsis for \<open>ElideRight\<close> and by nothing for every other mode. Where
  the serialisation shows as many markers as the text of the truncated document has,
  the displayed text holds exactly one marker for \<open>ElideRight\<close> exactly when the
  kept prefix holds none and does not end with a full stop, and no marker for another
  mode exactly when the kept prefix holds none.
\<close>

theorem overflow_inserts_ellipsis_for_ElideRight_only:
  "(overflowingRichText tk s \<longrightarrow>
      m_elidedText (elide tk s) = toHtml tk (truncatedDocument tk s) \<and>
      label_text (elide tk s) = toHtml tk (truncatedDocument tk s)) \<and>
   truncateDocument tk ElideRight mw doc
     = fst (insertText tk
              (deleteLoop tk (horizontalAdvance tk ellipsis) mw (cursorAtEnd doc)) ellipsis) \<and>
   (mode \<noteq> ElideRight \<longrightarrow>
      truncateDocument tk mode mw doc = fst (deleteLoop tk 0 mw (cursorAtEnd doc))) \<and>
   toPlainText (truncatedDocument tk s)
     = keptText tk s @ (if m_elideMode s = ElideRight then ellipsis else []) \<and>
   keptText tk s = take (length (keptText tk s)) (toPlainText (setHtml tk (m_text s))) \<and>
   (overflowingRichText tk s \<and>
    countMarkers (toHtml tk (truncatedDocument tk s))
      = countMarkers (toPlainText (truncatedDocument tk s)) \<longrightarrow>
      (m_elideMode s = ElideRight \<longrightarrow>
         (countMarkers (label_text (elide tk s)) = 1
            \<longleftrightarrow> countMarkers (keptText tk s) = 0 \<and>
                (keptText tk s = [] \<or> last (keptText tk s) \<noteq> CHR ''.''))) \<and>
      (m_elideMode s \<noteq> ElideRight \<longrightarrow>
         (countMarkers (label_text (elide tk s)) = 0
            \<longleftrightarrow> countMarkers (keptText tk s) = 0)))"
proof -
  have a: "overflowingRichText tk s \<longrightarrow>
      m_elidedText (elide tk s) = toHtml tk (truncatedDocument tk s) \<and>
      label_text (elide tk s) = toHtml tk (truncatedDocument tk s)"
    using overflowingRichText_display [of tk s] by blast
  note b = truncateDocument_ElideRight [of tk mw doc]
  have c: "mode \<noteq> ElideRight \<longrightarrow>
      truncateDocument tk mode mw doc = fst (deleteLoop tk 0 mw (cursorAtEnd doc))"
    using truncateDocument_other [of mode tk mw doc] by blast
  note d = toPlainText_truncatedDocument [of tk s]
  have e: "keptText tk s = take (length (keptText tk s)) (toPlainText (setHtml tk (m_text s)))"
    by (simp add: keptText_def Let_def min_def)
  have f: "(m_elideMode s = ElideRight \<longrightarrow>
         (countMarkers (label_text (elide tk s)) = 1
            \<longleftrightarrow> countMarkers (keptText tk s) = 0 \<and>
                (keptText tk s = [] \<or> last (keptText tk s) \<noteq> CHR ''.''))) \<and>
      (m_elideMode s \<noteq> ElideRight \<longrightarrow>
         (countMarkers (label_text (elide tk s)) = 0
            \<longleftrightarrow> countMarkers (keptText tk s) = 0))"
    if o: "overflowingRichText tk s"
      and h: "countMarkers (toHtml tk (truncatedDocument tk s))
                = countMarkers (toPlainText (truncatedDocument tk s))"
  proof -
    from o h have l: "countMarkers (label_text (elide tk s))
        = countMarkers (keptText tk s @ (if m_elideMode s = ElideRight then ellipsis else []))"
      by (simp only: overflowingRichText_display d)
    show ?thesis
    proof (cases "m_elideMode s = ElideRight")
      case True
      with l countMarkers_append_ellipsis_one [of "keptText tk s"] show ?thesis by simp
    next
      case False
      with l show ?thesis by simp
    qed
  qed
  from a b c d e f show ?thesis by blast
qed

theorem overflow_inserts_ellipsis_for_ElideRight_only_witness:
  "overflowingRichText example_toolkit fullStop_ElideRight \<and>
   m_elideMode fullStop_ElideRight = ElideRight \<and>
   keptText example_toolkit fullStop_ElideRight = ''a.b H'' \<and>
   label_text (elide example_toolkit fullStop_ElideRight) = ''<b>a.b</b> H...'' \<and>
   countMarkers (label_text (elide example_toolkit fullStop_ElideRight)) = 1 \<and>
   overflowingRichText example_toolkit plain_ElideNone \<and>
   m_elideMode plain_ElideNone \<noteq> ElideRight \<and>
   keptText example_toolkit plain_ElideNone = ''Hello Wo'' \<and>
   label_text (elide example_toolkit plain_ElideNone) = ''<b>Hello</b> Wo'' \<and>
   countMarkers (label_text (elide example_toolkit plain_ElideNone)) = 0"
proof -
  let ?r = fullStop_ElideRight
  let ?n = plain_ElideNone
  note R = overflow_inserts_ellipsis_for_ElideRight_only
             [where tk = example_toolkit and s = ?r and mode = ElideNone and mw = 64
                and doc = "setHtml example_toolkit ''<b>Hello</b> World''"]
  note N = overflow_inserts_ellipsis_for_ElideRight_only
             [where tk = example_toolkit and s = ?n and mode = ElideNone and mw = 64
                and doc = "setHtml example_toolkit ''<b>Hello</b> World''"]
  have ro: "overflowingRichText example_toolkit ?r"
    by code_simp
  have rm: "m_elideMode ?r = ElideRight"
    by code_simp
  have rk: "keptText example_toolkit ?r = ''a.b H''"
    by code_simp
  have rh: "toHtml example_toolkit (truncatedDocument example_toolkit ?r) = ''<b>a.b</b> H...''"
    by code_simp
  have rp: "toPlainText (truncatedDocument example_toolkit ?r) = ''a.b H...''"
    by code_simp
  have rc: "countMarkers ''<b>a.b</b> H...'' = countMarkers ''a.b H...''"
    by code_simp
  have rz: "countMarkers ''a.b H'' = 0 \<and> (''a.b H'' = [] \<or> last ''a.b H'' \<noteq> CHR ''.'')"
    by code_simp
  from R ro have rl: "label_text (elide example_toolkit ?r)
      = toHtml example_toolkit (truncatedDocument example_toolkit ?r)"
    by blast
  have rs: "countMarkers (toHtml example_toolkit (truncatedDocument example_toolkit ?r))
      = countMarkers (toPlainText (truncatedDocument example_toolkit ?r))"
    using rc by (simp only: rh rp)
  have rz': "countMarkers (keptText example_toolkit ?r) = 0 \<and>
      (keptText example_toolkit ?r = [] \<or> last (keptText example_toolkit ?r) \<noteq> CHR ''.'')"
    using rz by (simp only: rk)
  from R ro rs rm rz'
  have r1: "countMarkers (label_text (elide example_toolkit ?r)) = 1"
    by blast
  have no: "overflowingRichText example_toolkit ?n"
    by code_simp
  have nm: "m_elideMode ?n \<noteq> ElideRight"
    by code_simp
  have nk: "keptText example_toolkit ?n = ''Hello Wo''"
    by code_simp
  have nh: "toHtml example_toolkit (truncatedDocument example_toolkit ?n) = ''<b>Hello</b> Wo''"
    by code_simp
  have np: "toPlainText (truncatedDocument example_toolkit ?n) = ''Hello Wo''"
    by code_simp
  have nc: "countMarkers ''<b>Hello</b> Wo'' = countMarkers ''Hello Wo''"
    by code_simp
  have nz: "countMarkers ''Hello Wo'' = 0"
    by code_simp
  from N no have nl: "label_text (elide example_toolkit ?n)
      = toHtml example_toolkit (truncatedDocument example_toolkit ?n)"
    by blast
  have ns: "countMarkers (toHtml example_toolkit (truncatedDocument example_toolkit ?n))
      = countMarkers (toPlainText (truncatedDocument example_toolkit ?n))"
    using nc by (simp only: nh np)
  have nz': "countMarkers (keptText example_toolkit ?n) = 0"
    using nz by (simp only: nk)
  from N no ns nm nz'
  have n0: "countMarkers (label_text (elide example_toolkit ?n)) = 0"
    by blast
  from rl rh have rl': "label_text (elide example_toolkit ?r) = ''<b>a.b</b> H...''"
    by (rule trans)
  from nl nh have nl': "label_text (elide example_toolkit ?n) = ''<b>Hello</b> Wo''"
    by (rule trans)
  from ro rm rk rl' r1 no nm nk nl' n0 show ?thesis by blast
qed

text \<open>
  A text with an ellipsis of its own keeps it: in mode \<open>ElideNone\<close> the displayed
  text of an overflowing rich text holds a marker, and in mode \<open>ElideRight\<close> more
  than one.
\<close>

theorem ellipsis_count_counterexample:
  "mightBeRichText example_toolkit (m_text ownEllipsis_ElideNone) \<and>
   \<not> docWidth example_toolkit (setHtml example_toolkit (m_text ownEllipsis_ElideNone))
       \<le> real_of_int (rect_width (TextRect example_toolkit ownEllipsis_ElideNone)) \<and>
   m_elideMode ownEllipsis_ElideNone = ElideNone \<and>
   label_text ownEllipsis_ElideNone = ''<b>Wait... </b>'' \<and>
   countMarkers (label_text ownEllipsis_ElideNone) \<noteq> 0 \<and>
   mightBeRichText example_toolkit (m_text ownEllipsis_ElideRight) \<and>
   \<not> docWidth example_toolkit (setHtml example_toolkit (m_text ownEllipsis_ElideRight))
       \<le> real_of_int (rect_width (TextRect example_toolkit ownEllipsis_ElideRight)) \<and>
   m_elideMode ownEllipsis_ElideRight = ElideRight \<and>
   label_text ownEllipsis_ElideRight = ''<b>Wait......</b>'' \<and>
   countMarkers (label_text ownEllipsis_ElideRight) \<noteq> 1"
proof -
  have a: "mightBeRichText example_toolkit (m_text ownEllipsis_ElideNone)"
    by code_simp
  have b: "\<not> docWidth example_toolkit (setHtml example_toolkit (m_text ownEllipsis_ElideNone))
       \<le> real_of_int (rect_width (TextRect example_toolkit ownEllipsis_ElideNone))"
    by code_simp
  have c: "m_elideMode ownEllipsis_ElideNone = ElideNone"
    by code_simp
  have d: "label_text ownEllipsis_ElideNone = ''<b>Wait... </b>''"
    by code_simp
  have e: "countMarkers ''<b>Wait... </b>'' = 1"
    by code_simp
  have f: "mightBeRichText example_toolkit (m_text ownEllipsis_ElideRight)"
    by code_simp
  have g: "\<not> docWidth example_toolkit (setHtml example_toolkit (m_text ownEllipsis_ElideRight))
       \<le> real_of_int (rect_width (TextRect example_toolkit ownEllipsis_ElideRight))"
    by code_simp
  have h: "m_elideMode ownEllipsis_ElideRight = ElideRight"
    by code_simp
  have i: "label_text ownEllipsis_ElideRight = ''<b>Wait......</b>''"
    by code_simp
  have j: "countMarkers ''<b>Wait......</b>'' = 4"
    by code_simp
  from a b c d e f g h i j show ?thesis by simp
qed

subsection \<open>Painting the highlight\<close>

lemma filter_upt_find:
  "filter P [a ..< b] = (case find P [a ..< b] of None \<Rightarrow> [] | Some i \<Rightarrow> i # filter P [Suc i ..< b])"
proof (induction "b - a" arbitrary: a)
  case 0
  then show ?case by simp
next
  case (Suc m)
  then have lt: "a < b" and m: "m = b - Suc a" by simp_all
  from lt have u: "[a ..< b] = a # [Suc a ..< b]" by (rule upt_conv_Cons)
  show ?case
  proof (cases "P a")
    case True
    then show ?thesis by (simp add: u)
  next
    case False
    with Suc.hyps(1) [OF m] show ?thesis by (simp add: u)
  qed
qed

lemma matchesFrom_unfold:
  "matchesFrom tk rx str a =
     (if 0 \<le> indexOf tk str rx (int a)
      then nat (indexOf tk str rx (int a))
             # matchesFrom tk rx str (nat (indexOf tk str rx (int a)) + 1)
      else [])"
  unfolding matchesFrom_def indexOf_def
  by (subst filter_upt_find) (simp split: option.splits del: upt_Suc)

lemma highlightLoop_matches:
  "- 1 \<le> i \<Longrightarrow>
     highlightLoop tk s r i
       = concat (map (highlightMatch tk s r)
           (matchesFrom tk (m_filterRegex s) (label_text s) (nat (i + 1))))"
proof (induction tk s r i rule: highlightLoop.induct)
  case (1 tk s textRect regexIndex)
  let ?j = "indexOf tk (label_text s) (m_filterRegex s) (regexIndex + 1)"
  from 1(2) have i: "int (nat (regexIndex + 1)) = regexIndex + 1" by simp
  have mu: "matchesFrom tk (m_filterRegex s) (label_text s) (nat (regexIndex + 1))
      = (if 0 \<le> ?j
         then nat ?j # matchesFrom tk (m_filterRegex s) (label_text s) (nat ?j + 1)
         else [])"
    using matchesFrom_unfold [of tk "m_filterRegex s" "label_text s" "nat (regexIndex + 1)"]
    by (simp only: i)
  show ?case
  proof (cases "0 \<le> ?j")
    case True
    then have ih: "highlightLoop tk s textRect ?j
        = concat (map (highlightMatch tk s textRect)
            (matchesFrom tk (m_filterRegex s) (label_text s) (nat (?j + 1))))"
      using 1(1) [OF refl] by simp
    from True have n: "nat (?j + 1) = nat ?j + 1" by simp
    have "highlightLoop tk s textRect regexIndex
        = highlightMatch tk s textRect (nat ?j) @ highlightLoop tk s textRect ?j"
      using True by (subst highlightLoop.simps) (simp add: Let_def)
    also have "\<dots> = concat (map (highlightMatch tk s textRect)
        (nat ?j # matchesFrom tk (m_filterRegex s) (label_text s) (nat ?j + 1)))"
      by (simp only: ih n concat.simps list.map)
    also have "\<dots> = concat (map (highlightMatch tk s textRect)
        (matchesFrom tk (m_filterRegex s) (label_text s) (nat (regexIndex + 1))))"
      using True by (simp only: mu if_True)
    finally show ?thesis .
  next
    case False
    have "highlightLoop tk s textRect regexIndex = []"
      using False by (subst highlightLoop.simps) (simp add: Let_def)
    moreover have "matchesFrom tk (m_filterRegex s) (label_text s) (nat (regexIndex + 1)) = []"
      using False by (simp only: mu if_False)
    ultimately show ?thesis by simp
  qed
qed

lemma paintEvent_filtered:
  "m_filterString s \<noteq> [] \<Longrightarrow>
     paintEvent tk s
       = [Save] @ concat (map (highlightMatch tk s (TextRect tk s))
                    (matchesFrom tk (m_filterRegex s) (label_text s) 0))
         @ [Restore, QLabel_paintEvent]"
  by (simp add: paintEvent_def Let_def highlightLoop_matches)

lemma matchesFrom_set:
  "i \<in> set (matchesFrom tk rx str a) \<longleftrightarrow> a \<le> i \<and> i \<le> length str \<and> rxMatchAt tk rx str i"
  by (auto simp: matchesFrom_def simp del: upt_Suc)

lemma matchesFrom_increasing:
  "sorted_wrt (<) (matchesFrom tk rx str a)"
  by (simp add: matchesFrom_def sorted_wrt_filter del: upt_Suc)

text \<open>
  C7. With an empty filter string \<open>paintEvent\<close> is the default painting alone, without
  any rectangle. With a non-empty one it handles, between \<open>Save\<close> and \<open>Restore\<close> and
  before the default painting, every index of the displayed text at which the
  expression matches, in increasing order; after \<open>setFilter\<close> the expression is the
  filter string, case-insensitive. The matches from an index on are the first match
  found from there, followed by the matches from one past its start. With the
  example toolkit, the case-insensitive pattern \<open>qu\<close> matches \<open>The Quick Fox\<close> at
  index 4 only, where \<open>Qu\<close> stands.
\<close>

theorem paintEvent_scans_every_match:
  "(m_filterString s = [] \<longrightarrow> paintEvent tk s = [QLabel_paintEvent]) \<and>
   (m_filterString s \<noteq> [] \<longrightarrow>
      paintEvent tk s
        = [Save] @ concat (map (highlightMatch tk s (TextRect tk s))
                     (matchesFrom tk (m_filterRegex s) (label_text s) 0))
          @ [Restore, QLabel_paintEvent]) \<and>
   (f \<noteq> [] \<longrightarrow>
      paintEvent tk (setFilter f s)
        = [Save] @ concat (map (highlightMatch tk (setFilter f s) (TextRect tk s))
                     (matchesFrom tk \<lparr>pattern = f, caseSensitivity = CaseInsensitive\<rparr>
                        (label_text s) 0))
          @ [Restore, QLabel_paintEvent]) \<and>
   (\<forall>i. i \<in> set (matchesFrom tk rx str 0) \<longleftrightarrow> i \<le> length str \<and> rxMatchAt tk rx str i) \<and>
   sorted_wrt (<) (matchesFrom tk rx str 0) \<and>
   matchesFrom tk rx str a =
     (if 0 \<le> indexOf tk str rx (int a)
      then nat (indexOf tk str rx (int a))
             # matchesFrom tk rx str (nat (indexOf tk str rx (int a)) + 1)
      else []) \<and>
   matchesFrom example_toolkit \<lparr>pattern = ''qu'', caseSensitivity = CaseInsensitive\<rparr>
     ''The Quick Fox'' 0 = [4] \<and>
   take 2 (drop 4 ''The Quick Fox'') = ''Qu''"
proof -
  have a: "m_filterString s = [] \<longrightarrow> paintEvent tk s = [QLabel_paintEvent]"
    by (simp add: paintEvent_def)
  have b: "m_filterString s \<noteq> [] \<longrightarrow>
      paintEvent tk s
        = [Save] @ concat (map (highlightMatch tk s (TextRect tk s))
                     (matchesFrom tk (m_filterRegex s) (label_text s) 0))
          @ [Restore, QLabel_paintEvent]"
    using paintEvent_filtered [of s tk] by blast
  have t: "TextRect tk (setFilter f s) = TextRect tk s"
    by (simp add: TextRect_def setFilter_def cong: if_cong)
  have b': "f \<noteq> [] \<longrightarrow>
      paintEvent tk (setFilter f s)
        = [Save] @ concat (map (highlightMatch tk (setFilter f s) (TextRect tk s))
                     (matchesFrom tk \<lparr>pattern = f, caseSensitivity = CaseInsensitive\<rparr>
                        (label_text s) 0))
          @ [Restore, QLabel_paintEvent]"
    using paintEvent_filtered [of "setFilter f s" tk] t
    by (simp add: setFilter_def)
  have c: "\<forall>i. i \<in> set (matchesFrom tk rx str 0) \<longleftrightarrow> i \<le> length str \<and> rxMatchAt tk rx str i"
    by (simp add: matchesFrom_set)
  note d = matchesFrom_increasing [of tk rx str 0]
  note e = matchesFrom_unfold [of tk rx str a]
  have f: "matchesFrom example_toolkit \<lparr>pattern = ''qu'', caseSensitivity = CaseInsensitive\<rparr>
     ''The Quick Fox'' 0 = [4]"
    by code_simp
  have g: "take 2 (drop 4 ''The Quick Fox'') = ''Qu''"
    by simp
  from a b b' c d e f g show ?thesis by blast
qed

theorem paintEvent_scans_every_match_witness:
  "m_filterString (setFilter ''qu'' (example_label ''The Quick Fox'')) \<noteq> [] \<and>
   paintEvent example_toolkit (setFilter ''qu'' (example_label ''The Quick Fox''))
     = [Save, FillRect \<lparr>x1 = 32, y1 = 0, x2 = 47, y2 = 19\<rparr> ''#707070'', Restore,
        QLabel_paintEvent] \<and>
   m_filterString (example_label ''The Quick Fox'') = [] \<and>
   paintEvent example_toolkit (example_label ''The Quick Fox'') = [QLabel_paintEvent]"
proof -
  let ?f = "setFilter ''qu'' (example_label ''The Quick Fox'')"
  let ?e = "example_label ''The Quick Fox''"
  have nf: "m_filterString ?f \<noteq> []"
    by code_simp
  have ne: "m_filterString ?e = []"
    by code_simp
  have v: "[Save] @ concat (map (highlightMatch example_toolkit ?f (TextRect example_toolkit ?f))
              (matchesFrom example_toolkit (m_filterRegex ?f) (label_text ?f) 0))
            @ [Restore, QLabel_paintEvent]
         = [Save, FillRect \<lparr>x1 = 32, y1 = 0, x2 = 47, y2 = 19\<rparr> ''#707070'', Restore,
            QLabel_paintEvent]"
    by code_simp
  from paintEvent_scans_every_match [where tk = example_toolkit and s = ?f] nf
  have "paintEvent example_toolkit ?f
      = [Save] @ concat (map (highlightMatch example_toolkit ?f (TextRect example_toolkit ?f))
              (matchesFrom example_toolkit (m_filterRegex ?f) (label_text ?f) 0))
            @ [Restore, QLabel_paintEvent]"
    by blast
  with v have a: "paintEvent example_toolkit ?f
      = [Save, FillRect \<lparr>x1 = 32, y1 = 0, x2 = 47, y2 = 19\<rparr> ''#707070'', Restore,
         QLabel_paintEvent]"
    by simp
  from paintEvent_scans_every_match [where tk = example_toolkit and s = ?e] ne
  have b: "paintEvent example_toolkit ?e = [QLabel_paintEvent]"
    by blast
  from nf a ne b show ?thesis by blast
qed

lemma mkRect_edges:
  "rect_left (mkRect x y w h) = x"
  "rect_top (mkRect x y w h) = y"
  "rect_width (mkRect x y w h) = w"
  "rect_height (mkRect x y w h) = h"
  by (simp_all add: mkRect_def rect_left_def rect_top_def rect_width_def rect_height_def)

text \<open>
  C8 (as amended). For a match at index \<open>i\<close>, a rectangle is filled exactly when the
  left edge, the left edge of the text rectangle plus the width of the text before the
  match, is strictly left of the right edge of the text rectangle; a match whose left
  edge is on the right edge or beyond it draws nothing. The filled rectangle starts at
  that left edge and at the top of the text rectangle, is as wide as the span of the
  filter string's length clipped at the right edge, and as high as the text rectangle.
  The loop handles every match, drawn or not.
\<close>

theorem highlight_rectangle_geometry:
  "(highlightLeft tk s r i < rect_right r \<longrightarrow>
      highlightMatch tk s r i
        = [FillRect (mkRect (highlightLeft tk s r i) (rect_top r)
                       (highlightWidth tk s r i) (rect_height r)) (backgroundColor tk)] \<and>
      highlightLeft tk s r i + highlightWidth tk s r i \<le> rect_right r) \<and>
   (rect_right r \<le> highlightLeft tk s r i \<longrightarrow> highlightMatch tk s r i = []) \<and>
   rect_left (mkRect x y w h) = x \<and> rect_top (mkRect x y w h) = y \<and>
   rect_width (mkRect x y w h) = w \<and> rect_height (mkRect x y w h) = h \<and>
   highlightLoop tk s r (- 1)
     = concat (map (highlightMatch tk s r)
         (matchesFrom tk (m_filterRegex s) (label_text s) 0))"
proof -
  have a: "highlightLeft tk s r i < rect_right r \<longrightarrow>
      highlightMatch tk s r i
        = [FillRect (mkRect (highlightLeft tk s r i) (rect_top r)
                       (highlightWidth tk s r i) (rect_height r)) (backgroundColor tk)]"
    by (simp add: highlightMatch_def highlightLeft_def highlightWidth_def Let_def)
  have b: "highlightLeft tk s r i < rect_right r \<longrightarrow>
      highlightLeft tk s r i + highlightWidth tk s r i \<le> rect_right r"
    unfolding highlightWidth_def by linarith
  have c: "rect_right r \<le> highlightLeft tk s r i \<longrightarrow> highlightMatch tk s r i = []"
    by (simp add: highlightMatch_def highlightLeft_def Let_def)
  have d: "highlightLoop tk s r (- 1)
     = concat (map (highlightMatch tk s r)
         (matchesFrom tk (m_filterRegex s) (label_text s) 0))"
    using highlightLoop_matches [of "- 1" tk s r] by simp
  from a b c d mkRect_edges [of x y w h] show ?thesis by blast
qed

theorem highlight_rectangle_geometry_witness:
  "highlightLeft example_toolkit (setFilter ''qu'' (example_label ''The Quick Fox''))
       (TextRect example_toolkit (setFilter ''qu'' (example_label ''The Quick Fox''))) 4
     < rect_right (TextRect example_toolkit (setFilter ''qu'' (example_label ''The Quick Fox''))) \<and>
   highlightMatch example_toolkit (setFilter ''qu'' (example_label ''The Quick Fox''))
       (TextRect example_toolkit (setFilter ''qu'' (example_label ''The Quick Fox''))) 4
     = [FillRect \<lparr>x1 = 32, y1 = 0, x2 = 47, y2 = 19\<rparr> ''#707070''] \<and>
   rect_right (TextRect example_toolkit matchOnRightEdge)
     \<le> highlightLeft example_toolkit matchOnRightEdge
          (TextRect example_toolkit matchOnRightEdge) 12 \<and>
   highlightMatch example_toolkit matchOnRightEdge
       (TextRect example_toolkit matchOnRightEdge) 12 = []"
proof -
  let ?f = "setFilter ''qu'' (example_label ''The Quick Fox'')"
  let ?r = "TextRect example_toolkit ?f"
  let ?q = "TextRect example_toolkit matchOnRightEdge"
  have lt: "highlightLeft example_toolkit ?f ?r 4 < rect_right ?r"
    by code_simp
  have v: "[FillRect (mkRect (highlightLeft example_toolkit ?f ?r 4) (rect_top ?r)
              (highlightWidth example_toolkit ?f ?r 4) (rect_height ?r))
              (backgroundColor example_toolkit)]
         = [FillRect \<lparr>x1 = 32, y1 = 0, x2 = 47, y2 = 19\<rparr> ''#707070'']"
    by code_simp
  have ge: "rect_right ?q \<le> highlightLeft example_toolkit matchOnRightEdge ?q 12"
    by code_simp
  from highlight_rectangle_geometry
         [where tk = example_toolkit and s = ?f and r = ?r and i = 4] lt
  have "highlightMatch example_toolkit ?f ?r 4
      = [FillRect (mkRect (highlightLeft example_toolkit ?f ?r 4) (rect_top ?r)
              (highlightWidth example_toolkit ?f ?r 4) (rect_height ?r))
              (backgroundColor example_toolkit)]"
    by blast
  with v have a: "highlightMatch example_toolkit ?f ?r 4
      = [FillRect \<lparr>x1 = 32, y1 = 0, x2 = 47, y2 = 19\<rparr> ''#707070'']"
    by simp
  from highlight_rectangle_geometry
         [where tk = example_toolkit and s = matchOnRightEdge and r = ?q and i = 12] ge
  have b: "highlightMatch example_toolkit matchOnRightEdge ?q 12 = []"
    by blast
  from lt a ge b show ?thesis by blast
qed

text \<open>
  A match whose left edge is on the right edge of the text rectangle, not beyond it,
  is skipped all the same.
\<close>

theorem skip_on_right_edge_counterexample:
  "matchesFrom example_toolkit (m_filterRegex matchOnRightEdge)
     (label_text matchOnRightEdge) 0 = [4] \<and>
   highlightLeft example_toolkit matchOnRightEdge
     (TextRect example_toolkit matchOnRightEdge) 4 = 32 \<and>
   rect_right (TextRect example_toolkit matchOnRightEdge) = 32 \<and>
   \<not> rect_right (TextRect example_toolkit matchOnRightEdge)
       < highlightLeft example_toolkit matchOnRightEdge
           (TextRect example_toolkit matchOnRightEdge) 4 \<and>
   highlightMatch example_toolkit matchOnRightEdge
     (TextRect example_toolkit matchOnRightEdge) 4 = [] \<and>
   paintEvent example_toolkit matchOnRightEdge = [Save, Restore, QLabel_paintEvent]"
proof -
  have a: "matchesFrom example_toolkit (m_filterRegex matchOnRightEdge)
     (label_text matchOnRightEdge) 0 = [4]"
    by code_simp
  have b: "highlightLeft example_toolkit matchOnRightEdge
     (TextRect example_toolkit matchOnRightEdge) 4 = 32"
    by code_simp
  have c: "rect_right (TextRect example_toolkit matchOnRightEdge) = 32"
    by code_simp
  have d: "highlightMatch example_toolkit matchOnRightEdge
     (TextRect example_toolkit matchOnRightEdge) 4 = []"
    by code_simp
  have e: "paintEvent example_toolkit matchOnRightEdge = [Save, Restore, QLabel_paintEvent]"
    by code_simp
  from a b c d e show ?thesis by simp
qed

subsection \<open>The displayed text across operations\<close>

lemma emit_elisionRequired_displayCurrent:
  "displayCurrent tk (emit_elisionRequired tk g s)"
proof -
  let ?s = "s\<lparr>notifications := notifications s @ [ElisionRequired g]\<rparr>"
  have "elidedString tk (handleElision tk g ?s) = elidedString tk ?s"
    by (rule elidedString_cong) (simp_all add: handleElision_elide)
  then show ?thesis
    by (simp add: displayCurrent_def emit_elisionRequired_def handleElision_elide)
qed

text \<open>
  A resize always leaves the displayed text current; \<open>setText\<close>, \<open>setDescription\<close>
  and \<open>setFilter\<close> keep it current; \<open>setElideMode\<close> keeps it current only when the
  text displayed for the old mode happens to be the elision for the new one.
\<close>

lemma displayCurrent_operations:
  "displayCurrent tk (resize tk r s)"
  "displayCurrent tk s \<Longrightarrow> displayCurrent tk (setText tk text s)"
  "displayCurrent tk s \<Longrightarrow> displayCurrent tk (setDescription description s)"
  "displayCurrent tk s \<Longrightarrow> displayCurrent tk (setFilter f s)"
  "displayCurrent tk (setElideMode mode s)
     \<longleftrightarrow> label_text s = elidedString tk (s\<lparr>m_elideMode := mode\<rparr>)"
proof -
  show "displayCurrent tk (resize tk r s)"
    by (simp add: resize_def resizeEvent_def emit_elisionRequired_displayCurrent)
  show "displayCurrent tk s \<Longrightarrow> displayCurrent tk (setText tk text s)"
    by (simp add: setText_def emit_elisionRequired_displayCurrent)
  have d: "elidedString tk (setDescription description s) = elidedString tk s"
    by (rule elidedString_cong) (simp_all add: setDescription_def)
  show "displayCurrent tk s \<Longrightarrow> displayCurrent tk (setDescription description s)"
    by (simp add: displayCurrent_def d) (simp add: setDescription_def)
  have f: "elidedString tk (setFilter f s) = elidedString tk s"
    by (rule elidedString_cong) (simp_all add: setFilter_def)
  show "displayCurrent tk s \<Longrightarrow> displayCurrent tk (setFilter f s)"
    by (simp add: displayCurrent_def f) (simp add: setFilter_def)
  have m: "elidedString tk (setElideMode mode s) = elidedString tk (s\<lparr>m_elideMode := mode\<rparr>)"
    by (rule elidedString_cong) (simp_all add: setElideMode_def)
  have l: "label_text (setElideMode mode s) = label_text s"
    by (simp add: setElideMode_def)
  show "displayCurrent tk (setElideMode mode s)
     \<longleftrightarrow> label_text s = elidedString tk (s\<lparr>m_elideMode := mode\<rparr>)"
    by (simp add: displayCurrent_def m l)
qed

text \<open>
  C1. The claim fails at \<open>setElideMode\<close>: it stores the mode and requests a repaint,
  but neither emits \<^verbatim>\<open>elisionRequired\<close> nor calls \<^verbatim>\<open>elide()\<close>. A label elided for
  \<open>ElideRight\<close> at 64 pixels and then set to \<open>ElideNone\<close> still displays the text
  with the ellipsis, while the elision for its text, width and new mode has none.
\<close>

theorem setElideMode_leaves_display_stale:
  "displayCurrent example_toolkit
     (resize example_toolkit (mkRect 0 0 64 20) (example_label ''<b>Hello</b> World'')) \<and>
   m_elideMode modeChangedAfterElision = ElideNone \<and>
   notifications modeChangedAfterElision
     = [ElisionRequired True, UpdateGeometry, ElisionRequired False, Update] \<and>
   label_text modeChangedAfterElision = ''<b>Hello...</b>'' \<and>
   elidedString example_toolkit modeChangedAfterElision = ''<b>Hello</b> Wo'' \<and>
   \<not> displayCurrent example_toolkit modeChangedAfterElision"
proof -
  have a: "displayCurrent example_toolkit
     (resize example_toolkit (mkRect 0 0 64 20) (example_label ''<b>Hello</b> World''))"
    by (rule displayCurrent_operations)
  have b: "m_elideMode modeChangedAfterElision = ElideNone"
    by code_simp
  have c: "notifications modeChangedAfterElision
     = [ElisionRequired True, UpdateGeometry, ElisionRequired False, Update]"
    by code_simp
  have d: "label_text modeChangedAfterElision = ''<b>Hello...</b>''"
    by code_simp
  have e: "elidedString example_toolkit modeChangedAfterElision = ''<b>Hello</b> Wo''"
    by code_simp
  from d e have f: "\<not> displayCurrent example_toolkit modeChangedAfterElision"
    by (simp add: displayCurrent_def)
  from a b c d e f show ?thesis by blast
qed

end
